theory Spec2Isabelle
  imports Complex_Main
begin

section \<open>The Wheel: round engine and puzzle layout of \<open>wheel_trainer.py\<close>\<close>

text \<open>
  A shallow embedding of the game logic of class \<open>WheelGame\<close>. Python's unbounded
  integers are \<open>int\<close>. The wheel's angle and speed are Python floats; they are modelled by
  exact rationals (\<open>rat\<close>), so rounding is not part of the model. A character is a
  \<open>char\<close>, and the case functions below cover the ASCII letters. The letter passed to
  \<open>guess_letter\<close> is one character, as the event loop passes it.
\<close>

subsection \<open>Constants (lines 25-29)\<close>

definition WHEEL_VALUES :: "int list" where
  "WHEEL_VALUES = [500, 550, 600, 650, 700, 750, 800, 850, 900, 300, 400, 450]"

definition VOWELS :: "char set" where
  "VOWELS = set ''AEIOU''"

definition VOWEL_COST :: int where
  "VOWEL_COST = 250"

subsection \<open>Characters and strings\<close>

text \<open>\<open>str.isalpha\<close> and \<open>str.upper\<close> on one ASCII character.\<close>

definition lower_case :: string where
  "lower_case = ''abcdefghijklmnopqrstuvwxyz''"

definition upper_case :: string where
  "upper_case = ''ABCDEFGHIJKLMNOPQRSTUVWXYZ''"

definition isalpha :: "char \<Rightarrow> bool" where
  "isalpha c = (c \<in> set lower_case \<or> c \<in> set upper_case)"

definition upper :: "char \<Rightarrow> char" where
  "upper c = (case map_of (zip lower_case upper_case) c of Some u \<Rightarrow> u | None \<Rightarrow> c)"

text \<open>\<open>str(n)\<close> for an integer, as the f-strings of the messages print it.\<close>

fun str_nat :: "nat \<Rightarrow> string" where
  "str_nat n = (if n < 10 then [char_of (48 + n)] else str_nat (n div 10) @ [char_of (48 + n mod 10)])"

declare str_nat.simps [simp del]

definition str_int :: "int \<Rightarrow> string" where
  "str_int i = (if i < 0 then CHR ''-'' # str_nat (nat (- i)) else str_nat (nat i))"

subsection \<open>Errors\<close>

datatype error = IndexError

text \<open>\<open>random.choice(seq)\<close>: the draw is the argument \<open>r\<close>, reduced to an index of
  \<open>seq\<close>; an empty sequence raises \<open>IndexError\<close>.\<close>

definition choice :: "'a list \<Rightarrow> nat \<Rightarrow> error + 'a" where
  "choice seq r = (if seq = [] then Inl IndexError else Inr (seq ! (r mod length seq)))"

text \<open>The subscript \<open>xs[i]\<close>: an index from \<open>-len(xs)\<close> up to \<open>-1\<close> counts from the
  end of the list, and an index outside \<open>-len(xs) .. len(xs) - 1\<close> raises.\<close>

definition py_index :: "'a list \<Rightarrow> int \<Rightarrow> error + 'a" where
  "py_index xs i =
     (if 0 \<le> i \<and> i < int (length xs) then Inr (xs ! nat i)
      else if - int (length xs) \<le> i \<and> i < 0 then Inr (xs ! nat (int (length xs) + i))
      else Inl IndexError)"

text \<open>\<open>int(x)\<close> truncates towards zero; \<open>x % m\<close> has the sign of \<open>m\<close>.\<close>

definition py_int :: "rat \<Rightarrow> int" where
  "py_int x = (if 0 \<le> x then \<lfloor>x\<rfloor> else \<lceil>x\<rceil>)"

definition py_mod :: "rat \<Rightarrow> rat \<Rightarrow> rat" where
  "py_mod x m = x - m * of_int \<lfloor>x / m\<rfloor>"

subsection \<open>The game state (\<open>__init__\<close>, lines 32-61)\<close>

text \<open>
  The fields of \<open>WheelGame\<close> that the game logic reads or writes. \<open>puzzles\<close> is the
  dictionary of categories in insertion order. \<open>waited\<close> is not a field of the class: it
  adds up the milliseconds that \<open>pygame.time.wait\<close> has blocked.
\<close>

record game =
  puzzles :: "(string \<times> string list) list"
  current_puzzle :: string
  current_category :: string
  revealed :: string
  guessed_letters :: "char set"
  wheel_angle :: rat
  wheel_spinning :: bool
  wheel_speed :: rat
  current_value :: int
  score :: int
  can_guess :: bool
  message :: string
  waited :: nat

subsection \<open>\<open>new_puzzle\<close> (lines 95-103)\<close>

text \<open>
  The two \<open>random.choice\<close> draws are the arguments \<open>r1\<close> and \<open>r2\<close>. The keys of a
  dictionary are distinct, so choosing a key and looking it up is choosing an entry.
\<close>

definition hide :: "string \<Rightarrow> string" where
  "hide p = map (\<lambda>c. if isalpha c then CHR ''_'' else c) p"

definition new_puzzle :: "game \<Rightarrow> nat \<Rightarrow> nat \<Rightarrow> error + game" where
  "new_puzzle s r1 r2 =
     (case choice (puzzles s) r1 of
        Inl e \<Rightarrow> Inl e
      | Inr (category, phrases) \<Rightarrow>
          (case choice phrases r2 of
             Inl e \<Rightarrow> Inl e
           | Inr phrase \<Rightarrow>
               Inr (s\<lparr>current_category := category,
                      current_puzzle := map upper phrase,
                      revealed := hide (map upper phrase),
                      guessed_letters := {},
                      current_value := 0,
                      can_guess := False,
                      message := []\<rparr>)))"

text \<open>\<open>__init__\<close>: the fields as the constructor sets them (\<open>current_puzzle\<close> is
  \<open>None\<close> there and is not read before \<open>new_puzzle\<close> replaces it), then \<open>new_puzzle\<close>.\<close>

definition init_game :: "(string \<times> string list) list \<Rightarrow> nat \<Rightarrow> nat \<Rightarrow> error + game" where
  "init_game ps r1 r2 =
     new_puzzle \<lparr>puzzles = ps, current_puzzle = [], current_category = [], revealed = [],
                 guessed_letters = {}, wheel_angle = 0, wheel_spinning = False, wheel_speed = 0,
                 current_value = 0, score = 0, can_guess = False, message = [], waited = 0\<rparr> r1 r2"

subsection \<open>The wheel (lines 105-125)\<close>

text \<open>\<open>spin_wheel\<close>: the draw of \<open>random.uniform(15, 25)\<close> is the argument \<open>v\<close>.\<close>

definition spin_wheel :: "game \<Rightarrow> rat \<Rightarrow> game" where
  "spin_wheel s v =
     (if \<not> wheel_spinning s \<and> \<not> can_guess s
      then s\<lparr>wheel_spinning := True, wheel_speed := v, message := ''Spinning...''\<rparr>
      else s)"

text \<open>Lines 121-122: the segment the wheel landed on.\<close>

definition landing_segment :: "rat \<Rightarrow> int" where
  "landing_segment angle =
     (let normalized_angle = py_mod angle 360
      in py_int ((normalized_angle / 360) * of_nat (length WHEEL_VALUES)))"

definition update_wheel :: "game \<Rightarrow> error + game" where
  "update_wheel s =
     (if wheel_spinning s then
        let angle = wheel_angle s + wheel_speed s;
            speed = wheel_speed s * (98 / 100);
            s1 = s\<lparr>wheel_angle := angle, wheel_speed := speed\<rparr>
        in if speed < 1 / 10 then
             (case py_index WHEEL_VALUES (landing_segment angle) of
                Inl e \<Rightarrow> Inl e
              | Inr v \<Rightarrow>
                  Inr (s1\<lparr>wheel_spinning := False,
                           current_value := v,
                           can_guess := True,
                           message := ''Landed on $'' @ str_int v @ ''!''\<rparr>))
           else Inr s1
      else Inr s)"

subsection \<open>The row layout of \<open>draw_puzzle\<close> (lines 189-218)\<close>

text \<open>\<open>phrase.split(' ')\<close>: every single space separates, so empty words appear
  between adjacent spaces and at the ends.\<close>

fun split_space :: "string \<Rightarrow> string list" where
  "split_space [] = [[]]"
| "split_space (c # cs) =
     (if c = CHR '' '' then [] # split_space cs
      else (case split_space cs of [] \<Rightarrow> [[c]] | w # ws \<Rightarrow> (c # w) # ws))"

text \<open>The loop state is \<open>(rows, current_row, current_count, char_index)\<close>. The inner
  loop (lines 212-215) appends one index for each letter of the word.\<close>

type_synonym layout_state = "nat list list \<times> nat list \<times> rat \<times> nat"

fun add_letters :: "string \<Rightarrow> nat list \<times> rat \<times> nat \<Rightarrow> nat list \<times> rat \<times> nat" where
  "add_letters [] st = st"
| "add_letters (letter # word) (current_row, current_count, char_index) =
     add_letters word (current_row @ [char_index], current_count + 1, char_index + 1)"

definition place_word :: "rat \<Rightarrow> layout_state \<Rightarrow> string \<Rightarrow> layout_state" where
  "place_word max_per_row st word =
     (case st of (rows, current_row, current_count, char_index) \<Rightarrow>
        let word_length = length word;
            space_needed = of_nat word_length + (if current_count > 0 then 1 / 2 else 0);
            (rows1, row1, count1) =
              (if current_count > 0 \<and> current_count + space_needed > max_per_row
               then (rows @ [current_row], [], 0)
               else (rows, current_row, current_count));
            (row2, count2, index2) =
              (if count1 > 0
               then (row1 @ [char_index], count1 + 1 / 2, char_index + 1)
               else (row1, count1, char_index));
            (row3, count3, index3) = add_letters word (row2, count2, index2)
        in (rows1, row3, count3, index3))"

definition build_rows :: "rat \<Rightarrow> string \<Rightarrow> nat list list" where
  "build_rows max_per_row phrase =
     (case foldl (place_word max_per_row) ([], [], 0, 0) (split_space phrase) of
        (rows, current_row, current_count, char_index) \<Rightarrow>
          if current_row \<noteq> [] then rows @ [current_row] else rows)"

text \<open>\<open>draw_puzzle\<close> fixes \<open>max_per_row = 13\<close> (line 181).\<close>

definition draw_puzzle_rows :: "string \<Rightarrow> nat list list" where
  "draw_puzzle_rows phrase = build_rows 13 phrase"

text \<open>What the rows show: the drawing loop (lines 235-253) reads
  \<open>current_puzzle[idx]\<close> for each index of each row and draws a box unless it is a space.\<close>

definition row_letters :: "string \<Rightarrow> nat list \<Rightarrow> string" where
  "row_letters phrase row = filter (\<lambda>c. c \<noteq> CHR '' '') (map (\<lambda>idx. phrase ! idx) row)"

definition shown_letters :: "string \<Rightarrow> nat list list \<Rightarrow> string" where
  "shown_letters phrase rows = concat (map (row_letters phrase) rows)"

definition phrase_letters :: "string \<Rightarrow> string" where
  "phrase_letters phrase = filter (\<lambda>c. c \<noteq> CHR '' '') phrase"

subsection \<open>\<open>buy_vowel\<close> (lines 434-447)\<close>

definition buy_vowel :: "game \<Rightarrow> bool \<times> game" where
  "buy_vowel s =
     (if score s < VOWEL_COST
      then (False, s\<lparr>message := ''Need $'' @ str_int VOWEL_COST @ ''!''\<rparr>)
      else
        let available_vowels =
              filter (\<lambda>v. v \<in> set (current_puzzle s) \<and> v \<notin> guessed_letters s) ''AEIOU''
        in if available_vowels = []
           then (False, s\<lparr>message := ''No vowels left!''\<rparr>)
           else (True, s\<lparr>message := ''Type a vowel (A, E, I, O, U)''\<rparr>))"

subsection \<open>\<open>guess_letter\<close> (lines 449-504)\<close>

text \<open>The reveal loop (lines 491-493), from index \<open>i\<close> on. Assigning to
  \<open>revealed[i]\<close> beyond the end of the list raises \<open>IndexError\<close>.\<close>

fun reveal_letters :: "nat \<Rightarrow> string \<Rightarrow> char \<Rightarrow> string \<Rightarrow> error + string" where
  "reveal_letters i [] letter cells = Inr cells"
| "reveal_letters i (c # cs) letter cells =
     (if c = letter
      then (if i < length cells then reveal_letters (Suc i) cs letter (cells[i := letter])
            else Inl IndexError)
      else reveal_letters (Suc i) cs letter cells)"

text \<open>Lines 475-504: the guess is accepted; \<open>letter\<close> is already upper case. When no
  \<open>_\<close> is left, the call adds the bonus, waits three seconds and starts a new puzzle
  itself, with the draws \<open>r1\<close> and \<open>r2\<close>.\<close>

definition resolve_guess :: "game \<Rightarrow> char \<Rightarrow> nat \<Rightarrow> nat \<Rightarrow> error + game" where
  "resolve_guess s letter r1 r2 =
     (let s1 = s\<lparr>guessed_letters := insert letter (guessed_letters s)\<rparr>
      in if letter \<in> set (current_puzzle s1) then
           let count = int (count_list (current_puzzle s1) letter);
               s2 = (if letter \<notin> VOWELS
                     then s1\<lparr>score := score s1 + current_value s1 * count,
                             message := ''Yes! +$'' @ str_int (current_value s1 * count),
                             current_value := 0,
                             can_guess := False\<rparr>
                     else s1\<lparr>message := ''Yes! Found '' @ str_int count\<rparr>)
           in (case reveal_letters 0 (current_puzzle s2) letter (revealed s2) of
                 Inl e \<Rightarrow> Inl e
               | Inr cells \<Rightarrow>
                   let s3 = s2\<lparr>revealed := cells\<rparr>
                   in if CHR ''_'' \<notin> set (revealed s3)
                      then new_puzzle (s3\<lparr>score := score s3 + 1000,
                                           message := ''SOLVED! +$1000 bonus!'',
                                           waited := waited s3 + 3000\<rparr>) r1 r2
                      else Inr s3)
         else Inr (s1\<lparr>message := ''Sorry, no '' @ [letter],
                       current_value := 0,
                       can_guess := False\<rparr>))"

definition guess_letter :: "game \<Rightarrow> char \<Rightarrow> bool \<Rightarrow> nat \<Rightarrow> nat \<Rightarrow> error + game" where
  "guess_letter s letter0 is_vowel_purchase r1 r2 =
     (let letter = upper letter0
      in if letter \<in> guessed_letters s then Inr (s\<lparr>message := ''Already guessed!''\<rparr>)
         else if \<not> isalpha letter then Inr s
         else if letter \<in> VOWELS then
           (if \<not> is_vowel_purchase then Inr (s\<lparr>message := ''Buy vowels with V key!''\<rparr>)
            else if score s < VOWEL_COST
            then Inr (s\<lparr>message := ''Need $'' @ str_int VOWEL_COST @ ''!''\<rparr>)
            else resolve_guess (s\<lparr>score := score s - VOWEL_COST\<rparr>) letter r1 r2)
         else
           (if \<not> can_guess s then Inr (s\<lparr>message := ''Spin the wheel first!''\<rparr>)
            else resolve_guess s letter r1 r2))"

subsection \<open>Sequences of operations\<close>

text \<open>The operations the event loop calls (lines 519-549), each with the random draws
  it consumes. An exception ends the run.\<close>

datatype operation =
    NewPuzzle nat nat
  | Spin rat
  | AdvanceWheel
  | BuyVowel
  | GuessLetter char bool nat nat

fun step :: "game \<Rightarrow> operation \<Rightarrow> error + game" where
  "step s (NewPuzzle r1 r2) = new_puzzle s r1 r2"
| "step s (Spin v) = Inr (spin_wheel s v)"
| "step s AdvanceWheel = update_wheel s"
| "step s BuyVowel = Inr (snd (buy_vowel s))"
| "step s (GuessLetter letter is_vowel_purchase r1 r2) = guess_letter s letter is_vowel_purchase r1 r2"

fun run :: "game \<Rightarrow> operation list \<Rightarrow> error + game" where
  "run s [] = Inr s"
| "run s (x # xs) = (case step s x of Inl e \<Rightarrow> Inl e | Inr s' \<Rightarrow> run s' xs)"

subsection \<open>Derived notions used in the statements\<close>

text \<open>
  \<open>revealed_after\<close> is the closed form of the reveal loop; \<open>accepted\<close> says that a guess
  passes every rejection check of lines 453-473; \<open>completes\<close> says that the letter occurs
  and that revealing it leaves no \<open>_\<close>; \<open>hit_state\<close> is the state after line 493 for a
  letter that occurs, and \<open>solved_state\<close> applies lines 497-499. The lemmas below tie each
  of them to the functions above. \<open>wf_puzzles\<close> is the loader's contract: there is a
  category and no category is empty. \<open>starts_new_puzzle\<close> says that an operation calls
  \<open>new_puzzle\<close>, as the operation itself or from inside \<open>guess_letter\<close>;
  \<open>guessed_letter\<close> is the upper-cased letter of a guess.
\<close>

definition revealed_after :: "string \<Rightarrow> char \<Rightarrow> string \<Rightarrow> string" where
  "revealed_after p l cells = map (\<lambda>(c, r). if c = l then l else r) (zip p cells)"

definition wf_puzzles :: "(string \<times> string list) list \<Rightarrow> bool" where
  "wf_puzzles ps = (ps \<noteq> [] \<and> list_all (\<lambda>(category, phrases). phrases \<noteq> []) ps)"

definition accepted :: "game \<Rightarrow> char \<Rightarrow> bool \<Rightarrow> bool" where
  "accepted s letter0 is_vowel_purchase =
     (let letter = upper letter0
      in letter \<notin> guessed_letters s \<and> isalpha letter \<and>
         (if letter \<in> VOWELS then is_vowel_purchase \<and> VOWEL_COST \<le> score s else can_guess s))"

definition completes :: "game \<Rightarrow> char \<Rightarrow> bool" where
  "completes s letter0 =
     (upper letter0 \<in> set (current_puzzle s) \<and>
      CHR ''_'' \<notin> set (revealed_after (current_puzzle s) (upper letter0) (revealed s)))"

definition hit_state :: "game \<Rightarrow> char \<Rightarrow> game" where
  "hit_state s letter =
     (let count = int (count_list (current_puzzle s) letter);
          cells = revealed_after (current_puzzle s) letter (revealed s)
      in if letter \<notin> VOWELS
         then s\<lparr>guessed_letters := insert letter (guessed_letters s),
                score := score s + current_value s * count,
                message := ''Yes! +$'' @ str_int (current_value s * count),
                current_value := 0,
                can_guess := False,
                revealed := cells\<rparr>
         else s\<lparr>guessed_letters := insert letter (guessed_letters s),
                message := ''Yes! Found '' @ str_int count,
                revealed := cells\<rparr>)"

definition solved_state :: "game \<Rightarrow> game" where
  "solved_state s = s\<lparr>score := score s + 1000, message := ''SOLVED! +$1000 bonus!'', waited := waited s + 3000\<rparr>"



subsection \<open>Example states\<close>

text \<open>A puzzle collection with one category, and states of a round on the phrase
  \<open>CAT\<close>: after a spin that landed on 500, with one cell left to reveal, while the wheel
  spins, on the tick that stops it, right after construction, and with an empty purse.\<close>

definition demo_puzzles :: "(string \<times> string list) list" where
  "demo_puzzles = [(''Animals'', [''cat'', ''dog''])]"

definition round_start :: game where
  "round_start =
     \<lparr>puzzles = demo_puzzles, current_puzzle = ''CAT'', current_category = ''Animals'',
      revealed = ''___'', guessed_letters = {}, wheel_angle = 725, wheel_spinning = False,
      wheel_speed = 49 / 500, current_value = 500, score = 250, can_guess = True,
      message = ''Landed on $500!'', waited = 0\<rparr>"

definition last_consonant :: game where
  "last_consonant = round_start\<lparr>revealed := ''_AT'', guessed_letters := {CHR ''A'', CHR ''T''}\<rparr>"

definition last_vowel :: game where
  "last_vowel = round_start\<lparr>revealed := ''C_T'', guessed_letters := {CHR ''C'', CHR ''T''}\<rparr>"

definition spinning :: game where
  "spinning = round_start\<lparr>wheel_spinning := True, wheel_speed := 20, current_value := 0,
                            can_guess := False, message := ''Spinning...''\<rparr>"

definition stopping :: game where
  "stopping = spinning\<lparr>wheel_angle := 725, wheel_speed := 1 / 10\<rparr>"

definition first_round :: game where
  "first_round =
     \<lparr>puzzles = demo_puzzles, current_puzzle = ''CAT'', current_category = ''Animals'',
      revealed = ''___'', guessed_letters = {}, wheel_angle = 0, wheel_spinning = False,
      wheel_speed = 0, current_value = 0, score = 0, can_guess = False,
      message = [], waited = 0\<rparr>"

definition broke :: game where
  "broke = round_start\<lparr>score := 0\<rparr>"

section \<open>Properties\<close>

subsection \<open>Auxiliary facts\<close>

lemma vowel_isalpha: "c \<in> VOWELS \<Longrightarrow> isalpha c"
  by (auto simp: VOWELS_def isalpha_def upper_case_def)


lemma reveal_letters_from:
  "i + length p = length cells \<Longrightarrow>
   reveal_letters i p l cells = Inr (take i cells @ revealed_after p l (drop i cells))"
proof (induction p arbitrary: i cells)
  case Nil
  then show ?case by (simp add: revealed_after_def)
next
  case (Cons c cs)
  from Cons.prems have i: "i < length cells" by simp
  have d: "drop i cells = cells ! i # drop (Suc i) cells"
    using i by (simp add: Cons_nth_drop_Suc)
  show ?case
  proof (cases "c = l")
    case True
    have "reveal_letters (Suc i) cs l (cells[i := l]) =
          Inr (take (Suc i) (cells[i := l]) @ revealed_after cs l (drop (Suc i) (cells[i := l])))"
      using Cons.prems by (intro Cons.IH) simp
    moreover have "take (Suc i) (cells[i := l]) = take i cells @ [l]"
      using i by (simp add: take_Suc_conv_app_nth)
    ultimately show ?thesis
      using True i d by (simp add: revealed_after_def)
  next
    case False
    have "reveal_letters (Suc i) cs l cells =
          Inr (take (Suc i) cells @ revealed_after cs l (drop (Suc i) cells))"
      using Cons.prems by (intro Cons.IH) simp
    then show ?thesis
      using False i d by (simp add: revealed_after_def take_Suc_conv_app_nth)
  qed
qed

lemma reveal_letters_eq:
  "length cells = length p \<Longrightarrow> reveal_letters 0 p l cells = Inr (revealed_after p l cells)"
  using reveal_letters_from [of 0 p cells l] by simp



lemma choice_wf: "seq \<noteq> [] \<Longrightarrow> choice seq r = Inr (seq ! (r mod length seq)) \<and> seq ! (r mod length seq) \<in> set seq"
  by (simp add: choice_def)

lemma new_puzzle_wf:
  assumes "wf_puzzles (puzzles s)"
  shows "\<exists>category phrases phrase. (category, phrases) \<in> set (puzzles s) \<and> phrase \<in> set phrases \<and>
     new_puzzle s r1 r2 =
       Inr (s\<lparr>current_category := category,
              current_puzzle := map upper phrase,
              revealed := hide (map upper phrase),
              guessed_letters := {},
              current_value := 0,
              can_guess := False,
              message := []\<rparr>)"
proof -
  obtain category phrases where e: "puzzles s ! (r1 mod length (puzzles s)) = (category, phrases)"
    by (cases "puzzles s ! (r1 mod length (puzzles s))")
  from assms have ne: "puzzles s \<noteq> []" by (simp add: wf_puzzles_def)
  then have m: "(category, phrases) \<in> set (puzzles s)"
    using choice_wf [of "puzzles s" r1] e by simp
  with assms have p: "phrases \<noteq> []"
    by (auto simp: wf_puzzles_def list_all_iff)
  have "phrases ! (r2 mod length phrases) \<in> set phrases"
    using choice_wf [OF p] by simp
  moreover have "new_puzzle s r1 r2 =
       Inr (s\<lparr>current_category := category,
              current_puzzle := map upper (phrases ! (r2 mod length phrases)),
              revealed := hide (map upper (phrases ! (r2 mod length phrases))),
              guessed_letters := {},
              current_value := 0,
              can_guess := False,
              message := []\<rparr>)"
    using ne p e by (simp add: new_puzzle_def choice_def)
  ultimately show ?thesis using m by blast
qed

lemma new_puzzle_Inr:
  assumes "new_puzzle s r1 r2 = Inr s'"
  shows "\<exists>category phrase.
     s' = s\<lparr>current_category := category,
              current_puzzle := map upper phrase,
              revealed := hide (map upper phrase),
              guessed_letters := {},
              current_value := 0,
              can_guess := False,
              message := []\<rparr>"
  using assms by (auto simp: new_puzzle_def split: sum.splits prod.splits)

lemma resolve_guess_miss:
  "letter \<notin> set (current_puzzle s) \<Longrightarrow>
   resolve_guess s letter r1 r2 =
     Inr (s\<lparr>guessed_letters := insert letter (guessed_letters s),
            message := ''Sorry, no '' @ [letter],
            current_value := 0,
            can_guess := False\<rparr>)"
  by (simp add: resolve_guess_def)

lemma resolve_guess_hit:
  assumes "letter \<in> set (current_puzzle s)" and "length (revealed s) = length (current_puzzle s)"
  shows "resolve_guess s letter r1 r2 =
     (if CHR ''_'' \<notin> set (revealed_after (current_puzzle s) letter (revealed s))
      then new_puzzle (solved_state (hit_state s letter)) r1 r2
      else Inr (hit_state s letter))"
  using assms
  by (simp add: resolve_guess_def hit_state_def solved_state_def Let_def reveal_letters_eq)

lemma guess_letter_accepted:
  "accepted s letter0 f \<Longrightarrow>
   guess_letter s letter0 f r1 r2 =
     resolve_guess (if upper letter0 \<in> VOWELS then s\<lparr>score := score s - VOWEL_COST\<rparr> else s)
       (upper letter0) r1 r2"
  by (auto simp: accepted_def guess_letter_def Let_def)

lemma guess_letter_rejected:
  "\<not> accepted s letter0 f \<Longrightarrow>
   \<exists>m. guess_letter s letter0 f r1 r2 = Inr (s\<lparr>message := m\<rparr>)"
proof -
  have same: "\<exists>m. Inr s = Inr (s\<lparr>message := m\<rparr>)" for s :: game
    by (rule exI [of _ "message s"]) simp
  assume "\<not> accepted s letter0 f"
  then show ?thesis
    using same [of s] by (auto simp: accepted_def guess_letter_def Let_def)
qed

lemmas char_defs = upper_def isalpha_def lower_case_def upper_case_def VOWELS_def
lemmas demo_defs = round_start_def last_consonant_def last_vowel_def demo_puzzles_def

lemma py_mod_bounds:
  assumes "0 < m"
  shows "0 \<le> py_mod x m \<and> py_mod x m < m"
proof -
  let ?q = "x / m"
  have lo: "of_int \<lfloor>?q\<rfloor> \<le> ?q" and hi: "?q < of_int \<lfloor>?q\<rfloor> + 1"
    by linarith+
  from lo assms have "m * of_int \<lfloor>?q\<rfloor> \<le> m * ?q"
    by (intro mult_left_mono) simp_all
  moreover from hi assms have "m * ?q < m * (of_int \<lfloor>?q\<rfloor> + 1)"
    by (intro mult_strict_left_mono) simp_all
  moreover have "m * ?q = x"
    using assms by simp
  ultimately show ?thesis
    using assms by (simp add: py_mod_def algebra_simps)
qed

lemma landing_segment_floor:
  "landing_segment angle = \<lfloor>py_mod angle 360 / (360 / 12)\<rfloor>"
proof -
  have "0 \<le> py_mod angle 360"
    using py_mod_bounds [of 360 angle] by simp
  then show ?thesis
    by (simp add: landing_segment_def py_int_def WHEEL_VALUES_def)
qed

lemma landing_segment_range:
  "0 \<le> landing_segment angle \<and> landing_segment angle < int (length WHEEL_VALUES)"
proof -
  have b: "0 \<le> py_mod angle 360" "py_mod angle 360 < 360"
    using py_mod_bounds [of 360 angle] by simp_all
  then have "0 \<le> py_mod angle 360 / 30" "py_mod angle 360 / 30 < 12"
    by simp_all
  then have "0 \<le> \<lfloor>py_mod angle 360 / 30\<rfloor>" "\<lfloor>py_mod angle 360 / 30\<rfloor> < 12"
    by (simp_all add: floor_less_iff)
  then show ?thesis
    by (simp add: landing_segment_floor WHEEL_VALUES_def)
qed

lemma py_index_in_range:
  "0 \<le> i \<Longrightarrow> i < int (length xs) \<Longrightarrow> py_index xs i = Inr (xs ! nat i) \<and> xs ! nat i \<in> set xs"
  by (simp add: py_index_def)

lemma update_wheel_total:
  "\<exists>s'. update_wheel s = Inr s' \<and> score s' = score s \<and>
     current_puzzle s' = current_puzzle s \<and> revealed s' = revealed s \<and>
     (current_value s' = current_value s \<or> current_value s' \<in> set WHEEL_VALUES)"
proof -
  let ?g = "landing_segment (wheel_angle s + wheel_speed s)"
  have "py_index WHEEL_VALUES ?g = Inr (WHEEL_VALUES ! nat ?g)" "WHEEL_VALUES ! nat ?g \<in> set WHEEL_VALUES"
    using landing_segment_range [of "wheel_angle s + wheel_speed s"]
      py_index_in_range [of ?g WHEEL_VALUES] by simp_all
  then show ?thesis
    by (simp add: update_wheel_def Let_def)
qed

lemma wheel_values_nonneg: "v \<in> set WHEEL_VALUES \<Longrightarrow> 0 \<le> v"
  by (auto simp: WHEEL_VALUES_def)

lemma new_puzzle_keeps_score:
  "new_puzzle s r1 r2 = Inr s' \<Longrightarrow> score s' = score s \<and> current_value s' = 0"
  by (auto dest: new_puzzle_Inr)

lemma resolve_guess_nonneg:
  assumes "0 \<le> score s" and "0 \<le> current_value s" and "resolve_guess s letter r1 r2 = Inr s'"
  shows "0 \<le> score s' \<and> 0 \<le> current_value s'"
proof -
  have c: "0 \<le> current_value s * int (count_list (current_puzzle s) letter)"
    using assms(2) by simp
  from assms(3) show ?thesis
    using assms(1,2) c
    by (auto simp: resolve_guess_def Let_def split: if_splits sum.splits dest!: new_puzzle_keeps_score)
qed

lemma guess_letter_nonneg:
  assumes "0 \<le> score s" and "0 \<le> current_value s"
    and "guess_letter s letter is_vowel_purchase r1 r2 = Inr s'"
  shows "0 \<le> score s' \<and> 0 \<le> current_value s'"
proof (cases "accepted s letter is_vowel_purchase")
  case True
  let ?p = "if upper letter \<in> VOWELS then s\<lparr>score := score s - VOWEL_COST\<rparr> else s"
  have "0 \<le> score ?p" "0 \<le> current_value ?p"
    using True assms(1,2) by (auto simp: accepted_def Let_def)
  moreover have "resolve_guess ?p (upper letter) r1 r2 = Inr s'"
    using guess_letter_accepted [OF True, of r1 r2] assms(3) by simp
  ultimately show ?thesis
    by (rule resolve_guess_nonneg)
next
  case False
  from guess_letter_rejected [OF False, of r1 r2] assms show ?thesis
    by auto
qed

lemma step_nonneg:
  assumes "0 \<le> score s" and "0 \<le> current_value s" and "step s x = Inr s'"
  shows "0 \<le> score s' \<and> 0 \<le> current_value s'"
proof (cases x)
  case (NewPuzzle r1 r2)
  with assms show ?thesis by (auto dest: new_puzzle_keeps_score)
next
  case (Spin v)
  with assms show ?thesis by (auto simp: spin_wheel_def)
next
  case AdvanceWheel
  with assms update_wheel_total [of s] show ?thesis
    by (auto dest: wheel_values_nonneg)
next
  case BuyVowel
  with assms show ?thesis by (auto simp: buy_vowel_def Let_def)
next
  case (GuessLetter letter f r1 r2)
  with assms show ?thesis by (auto dest: guess_letter_nonneg)
qed

lemma run_nonneg:
  "0 \<le> score s \<Longrightarrow> 0 \<le> current_value s \<Longrightarrow> run s xs = Inr s' \<Longrightarrow> 0 \<le> score s'"
proof (induction xs arbitrary: s)
  case Nil
  then show ?case by simp
next
  case (Cons x xs)
  from Cons.prems(3) obtain t where t: "step s x = Inr t" "run t xs = Inr s'"
    by (auto split: sum.splits)
  from step_nonneg [OF Cons.prems(1,2) t(1)] t(2) show ?case
    by (intro Cons.IH [of t]) simp_all
qed

subsection \<open>Claims\<close>

text \<open>
  C1, as the code has it. A consonant that occurs in the phrase, guessed while \<open>can_guess\<close>
  holds and not guessed before, adds \<open>current_value\<close> times the number of its occurrences
  to the score, and the bonus of 1000 on top when the guess reveals the last hidden cell
  (line 497). Afterwards \<open>current_value\<close> is 0 and \<open>can_guess\<close> is \<open>False\<close>.
\<close>

theorem consonant_hit_score:
  assumes "can_guess s"
    and "isalpha (upper letter)" and "upper letter \<notin> VOWELS"
    and "upper letter \<notin> guessed_letters s"
    and "upper letter \<in> set (current_puzzle s)"
    and "length (revealed s) = length (current_puzzle s)"
    and "wf_puzzles (puzzles s)"
  shows "\<exists>s'. guess_letter s letter is_vowel_purchase r1 r2 = Inr s' \<and>
     score s' = score s + current_value s * int (count_list (current_puzzle s) (upper letter))
                + (if completes s letter then 1000 else 0) \<and>
     current_value s' = 0 \<and> \<not> can_guess s'"
proof -
  let ?l = "upper letter"
  have acc: "accepted s letter is_vowel_purchase"
    using assms by (simp add: accepted_def)
  then have g: "guess_letter s letter is_vowel_purchase r1 r2 = resolve_guess s ?l r1 r2"
    using assms(3) by (simp add: guess_letter_accepted)
  show ?thesis
  proof (cases "completes s letter")
    case True
    let ?t = "solved_state (hit_state s ?l)"
    have "wf_puzzles (puzzles ?t)"
      using assms(7) by (simp add: solved_state_def hit_state_def Let_def)
    from new_puzzle_wf [OF this, of r1 r2] obtain s' where
      n: "new_puzzle ?t r1 r2 = Inr s'" and
      f: "score s' = score ?t" "current_value s' = 0" "\<not> can_guess s'"
      by auto
    have "resolve_guess s ?l r1 r2 = new_puzzle ?t r1 r2"
      using True assms(5,6) by (simp add: resolve_guess_hit completes_def)
    with g n f True assms(3) show ?thesis
      by (simp add: solved_state_def hit_state_def Let_def)
  next
    case False
    have "resolve_guess s ?l r1 r2 = Inr (hit_state s ?l)"
      using False assms(5,6) by (simp add: resolve_guess_hit completes_def)
    with g False assms(3) show ?thesis
      by (simp add: hit_state_def Let_def)
  qed
qed

text \<open>C1 at a concrete state: \<open>T\<close> in \<open>CAT\<close> at a wheel value of 500.\<close>

theorem consonant_hit_score_witness:
  "can_guess round_start \<and> isalpha (upper CHR ''t'') \<and> upper CHR ''t'' \<notin> VOWELS \<and>
   upper CHR ''t'' \<notin> guessed_letters round_start \<and>
   upper CHR ''t'' \<in> set (current_puzzle round_start) \<and>
   length (revealed round_start) = length (current_puzzle round_start) \<and>
   wf_puzzles (puzzles round_start) \<and> \<not> completes round_start CHR ''t'' \<and>
   (\<exists>s'. guess_letter round_start CHR ''t'' False 0 0 = Inr s' \<and> score s' = 750 \<and>
      current_value s' = 0 \<and> \<not> can_guess s')"
proof -
  have h: "can_guess round_start" "isalpha (upper CHR ''t'')" "upper CHR ''t'' \<notin> VOWELS"
    "upper CHR ''t'' \<notin> guessed_letters round_start"
    "upper CHR ''t'' \<in> set (current_puzzle round_start)"
    "length (revealed round_start) = length (current_puzzle round_start)"
    "wf_puzzles (puzzles round_start)"
    by (simp_all add: char_defs demo_defs wf_puzzles_def)
  have c: "\<not> completes round_start CHR ''t''"
    by (simp add: completes_def revealed_after_def char_defs demo_defs)
  have "score round_start + current_value round_start *
          int (count_list (current_puzzle round_start) (upper CHR ''t'')) = 750"
    by (simp add: char_defs demo_defs)
  with consonant_hit_score [OF h, of False 0 0] h c show ?thesis
    by simp
qed

text \<open>
  C1 as stated fails when the guess completes the puzzle: the last hidden cell of \<open>CAT\<close> is
  \<open>C\<close>, the wheel value is 500, and the score goes from 250 to 1750, not to 750.
\<close>

theorem consonant_hit_with_bonus_counterexample:
  "can_guess last_consonant \<and> upper CHR ''c'' \<notin> VOWELS \<and> isalpha (upper CHR ''c'') \<and>
   upper CHR ''c'' \<notin> guessed_letters last_consonant \<and>
   count_list (current_puzzle last_consonant) (upper CHR ''c'') = 1 \<and>
   score last_consonant = 250 \<and> current_value last_consonant = 500 \<and>
   guess_letter last_consonant CHR ''c'' False 0 1 =
     Inr (last_consonant\<lparr>current_puzzle := ''DOG'', revealed := ''___'', guessed_letters := {},
                         current_value := 0, can_guess := False, message := [],
                         score := 1750, waited := 3000\<rparr>)"
  by (simp add: char_defs demo_defs guess_letter_def resolve_guess_def new_puzzle_def choice_def
      hide_def Let_def)

text \<open>
  C2 on the code. When a word starts a new row, \<open>char_index\<close> is not advanced past the
  space before it (lines 200-209), so every later index is one too small for each row
  break. For \<open>ACTIONS SPEAK LOUDER THAN WORDS\<close> with the 13 cells of \<open>draw_puzzle\<close> the
  rows show \<open>ACTIONSSPEAK\<close>, \<open>LOUDERTHA\<close> and \<open>NWOR\<close>: the word \<open>THAN\<close> is split
  over two rows and the letters \<open>DS\<close> are never shown.
\<close>

theorem draw_puzzle_rows_shifted:
  "draw_puzzle_rows ''ACTIONS SPEAK LOUDER THAN WORDS'' =
     [[0, 1, 2, 3, 4, 5, 6, 7, 8, 9, 10, 11, 12],
      [13, 14, 15, 16, 17, 18, 19, 20, 21, 22, 23],
      [24, 25, 26, 27, 28]] \<and>
   map (row_letters ''ACTIONS SPEAK LOUDER THAN WORDS'')
       (draw_puzzle_rows ''ACTIONS SPEAK LOUDER THAN WORDS'') =
     [''ACTIONSSPEAK'', ''LOUDERTHA'', ''NWOR''] \<and>
   shown_letters ''ACTIONS SPEAK LOUDER THAN WORDS''
       (draw_puzzle_rows ''ACTIONS SPEAK LOUDER THAN WORDS'') = ''ACTIONSSPEAKLOUDERTHANWOR'' \<and>
   phrase_letters ''ACTIONS SPEAK LOUDER THAN WORDS'' = ''ACTIONSSPEAKLOUDERTHANWORDS''"
proof -
  have r: "draw_puzzle_rows ''ACTIONS SPEAK LOUDER THAN WORDS'' =
     [[0, 1, 2, 3, 4, 5, 6, 7, 8, 9, 10, 11, 12],
      [13, 14, 15, 16, 17, 18, 19, 20, 21, 22, 23],
      [24, 25, 26, 27, 28]]"
    by code_simp
  have l: "map (row_letters ''ACTIONS SPEAK LOUDER THAN WORDS'')
      [[0, 1, 2, 3, 4, 5, 6, 7, 8, 9, 10, 11, 12],
       [13, 14, 15, 16, 17, 18, 19, 20, 21, 22, 23],
       [24, 25, 26, 27, 28]] = [''ACTIONSSPEAK'', ''LOUDERTHA'', ''NWOR'']"
    by code_simp
  have p: "phrase_letters ''ACTIONS SPEAK LOUDER THAN WORDS'' = ''ACTIONSSPEAKLOUDERTHANWORDS''"
    by code_simp
  show ?thesis
    unfolding r shown_letters_def l p by simp
qed

text \<open>
  C3. A vowel guessed under purchase context that passes the checks (a vowel is alphabetic;
  not guessed before; the score covers the cost) is charged 250 at acceptance, whether or not
  it occurs in the phrase: the rest of the call runs on the state with the score already
  reduced. A vowel that does not occur leaves the score at 250 less; one that occurs leaves
  it at 250 less, plus the bonus of 1000 when it completes the puzzle.
\<close>

theorem vowel_purchase_cost:
  assumes "upper letter \<in> VOWELS"
    and "upper letter \<notin> guessed_letters s"
    and "VOWEL_COST \<le> score s"
  shows "guess_letter s letter True r1 r2 =
           resolve_guess (s\<lparr>score := score s - 250\<rparr>) (upper letter) r1 r2 \<and>
     (upper letter \<notin> set (current_puzzle s) \<longrightarrow>
        (\<exists>s'. guess_letter s letter True r1 r2 = Inr s' \<and> score s' = score s - 250)) \<and>
     (upper letter \<in> set (current_puzzle s) \<and> length (revealed s) = length (current_puzzle s) \<and>
      wf_puzzles (puzzles s) \<longrightarrow>
        (\<exists>s'. guess_letter s letter True r1 r2 = Inr s' \<and>
           score s' = score s - 250 + (if completes s letter then 1000 else 0)))"
proof -
  let ?l = "upper letter"
  let ?p = "s\<lparr>score := score s - 250\<rparr>"
  have acc: "accepted s letter True"
    using assms by (simp add: accepted_def vowel_isalpha)
  then have g: "guess_letter s letter True r1 r2 = resolve_guess ?p ?l r1 r2"
    using assms(1) by (simp add: guess_letter_accepted VOWEL_COST_def)
  have miss: "\<exists>s'. guess_letter s letter True r1 r2 = Inr s' \<and> score s' = score s - 250"
    if "?l \<notin> set (current_puzzle s)"
    using that g by (simp add: resolve_guess_miss)
  have hit: "\<exists>s'. guess_letter s letter True r1 r2 = Inr s' \<and>
           score s' = score s - 250 + (if completes s letter then 1000 else 0)"
    if a: "?l \<in> set (current_puzzle s)" and b: "length (revealed s) = length (current_puzzle s)"
      and w: "wf_puzzles (puzzles s)"
  proof (cases "completes s letter")
    case True
    let ?t = "solved_state (hit_state ?p ?l)"
    have "wf_puzzles (puzzles ?t)"
      using w by (simp add: solved_state_def hit_state_def Let_def)
    from new_puzzle_wf [OF this, of r1 r2] obtain s' where
      n: "new_puzzle ?t r1 r2 = Inr s'" and f: "score s' = score ?t"
      by auto
    have "resolve_guess ?p ?l r1 r2 = new_puzzle ?t r1 r2"
      using True a b by (simp add: resolve_guess_hit completes_def)
    with g n f True assms(1) show ?thesis
      by (simp add: solved_state_def hit_state_def Let_def)
  next
    case False
    have "resolve_guess ?p ?l r1 r2 = Inr (hit_state ?p ?l)"
      using False a b by (simp add: resolve_guess_hit completes_def)
    with g False assms(1) show ?thesis
      by (simp add: hit_state_def Let_def)
  qed
  from g miss hit show ?thesis by blast
qed

text \<open>C3 at concrete states: \<open>E\<close> is not in \<open>CAT\<close>; \<open>A\<close> completes \<open>C_T\<close>.\<close>

theorem vowel_purchase_cost_witness:
  "upper CHR ''e'' \<in> VOWELS \<and> upper CHR ''e'' \<notin> guessed_letters round_start \<and>
   VOWEL_COST \<le> score round_start \<and> upper CHR ''e'' \<notin> set (current_puzzle round_start) \<and>
   score round_start = 250 \<and>
   (\<exists>s'. guess_letter round_start CHR ''e'' True 0 0 = Inr s' \<and> score s' = 0) \<and>
   upper CHR ''a'' \<in> set (current_puzzle last_vowel) \<and> completes last_vowel CHR ''a'' \<and>
   (\<exists>s'. guess_letter last_vowel CHR ''a'' True 0 1 = Inr s' \<and> score s' = 1000)"
proof -
  have k: "upper CHR ''a'' \<in> VOWELS" "upper CHR ''a'' \<notin> guessed_letters last_vowel"
    "VOWEL_COST \<le> score last_vowel"
    by (simp_all add: char_defs demo_defs VOWEL_COST_def)
  have n: "upper CHR ''a'' \<in> set (current_puzzle last_vowel)"
    "length (revealed last_vowel) = length (current_puzzle last_vowel)"
    "wf_puzzles (puzzles last_vowel)" "completes last_vowel CHR ''a''" "score last_vowel = 250"
    by (simp_all add: completes_def revealed_after_def char_defs demo_defs wf_puzzles_def)
  from vowel_purchase_cost [OF k, of 0 1, THEN conjunct2, THEN conjunct2] n(1-4)
  have hit: "\<exists>s'. guess_letter last_vowel CHR ''a'' True 0 1 = Inr s' \<and>
               score s' = score last_vowel - 250 + 1000"
    by simp
  have h: "upper CHR ''e'' \<in> VOWELS" "upper CHR ''e'' \<notin> guessed_letters round_start"
    "VOWEL_COST \<le> score round_start"
    by (simp_all add: char_defs demo_defs VOWEL_COST_def)
  have m: "upper CHR ''e'' \<notin> set (current_puzzle round_start)" "score round_start = 250"
    by (simp_all add: char_defs demo_defs)
  from vowel_purchase_cost [OF h, of 0 0] m(1)
  have "\<exists>s'. guess_letter round_start CHR ''e'' True 0 0 = Inr s' \<and> score s' = score round_start - 250"
    by blast
  with h m n hit show ?thesis
    by simp
qed

text \<open>
  C4, as the code has it. An accepted vowel guess whose letter does not occur in the phrase
  takes the branch of lines 501-504, which sets \<open>current_value\<close> to 0 and \<open>can_guess\<close>
  to \<open>False\<close> for vowels and consonants alike. An accepted vowel guess leaves both as they
  were when the vowel occurs and does not complete the puzzle.
\<close>

theorem vowel_guess_spin_state:
  assumes "upper letter \<in> VOWELS"
    and "upper letter \<notin> guessed_letters s"
    and "VOWEL_COST \<le> score s"
  shows "(upper letter \<notin> set (current_puzzle s) \<longrightarrow>
        (\<exists>s'. guess_letter s letter True r1 r2 = Inr s' \<and> current_value s' = 0 \<and> \<not> can_guess s')) \<and>
     (upper letter \<in> set (current_puzzle s) \<and> length (revealed s) = length (current_puzzle s) \<and>
      \<not> completes s letter \<longrightarrow>
        (\<exists>s'. guess_letter s letter True r1 r2 = Inr s' \<and>
           current_value s' = current_value s \<and> can_guess s' = can_guess s))"
proof -
  let ?l = "upper letter"
  let ?p = "s\<lparr>score := score s - VOWEL_COST\<rparr>"
  have "accepted s letter True"
    using assms by (simp add: accepted_def vowel_isalpha)
  then have g: "guess_letter s letter True r1 r2 = resolve_guess ?p ?l r1 r2"
    using assms(1) by (simp add: guess_letter_accepted)
  have miss: "\<exists>s'. guess_letter s letter True r1 r2 = Inr s' \<and> current_value s' = 0 \<and> \<not> can_guess s'"
    if "?l \<notin> set (current_puzzle s)"
    using that g by (simp add: resolve_guess_miss)
  have hit: "\<exists>s'. guess_letter s letter True r1 r2 = Inr s' \<and>
           current_value s' = current_value s \<and> can_guess s' = can_guess s"
    if a: "?l \<in> set (current_puzzle s)" and b: "length (revealed s) = length (current_puzzle s)"
      and c: "\<not> completes s letter"
  proof -
    have "resolve_guess ?p ?l r1 r2 = Inr (hit_state ?p ?l)"
      using a b c by (simp add: resolve_guess_hit completes_def)
    with g assms(1) show ?thesis
      by (simp add: hit_state_def Let_def)
  qed
  from miss hit show ?thesis by blast
qed

text \<open>C4 at a concrete state: \<open>O\<close> misses \<open>CAT\<close>, \<open>A\<close> hits it.\<close>

theorem vowel_guess_spin_state_witness:
  "upper CHR ''o'' \<in> VOWELS \<and> upper CHR ''o'' \<notin> guessed_letters round_start \<and>
   VOWEL_COST \<le> score round_start \<and> upper CHR ''o'' \<notin> set (current_puzzle round_start) \<and>
   (\<exists>s'. guess_letter round_start CHR ''o'' True 0 0 = Inr s' \<and> current_value s' = 0 \<and> \<not> can_guess s') \<and>
   upper CHR ''a'' \<in> VOWELS \<and> upper CHR ''a'' \<notin> guessed_letters round_start \<and>
   upper CHR ''a'' \<in> set (current_puzzle round_start) \<and>
   length (revealed round_start) = length (current_puzzle round_start) \<and>
   \<not> completes round_start CHR ''a'' \<and>
   (\<exists>s'. guess_letter round_start CHR ''a'' True 0 0 = Inr s' \<and> current_value s' = 500 \<and> can_guess s')"
proof -
  have o: "upper CHR ''o'' \<in> VOWELS" "upper CHR ''o'' \<notin> guessed_letters round_start"
    "VOWEL_COST \<le> score round_start"
    by (simp_all add: char_defs demo_defs VOWEL_COST_def)
  have om: "upper CHR ''o'' \<notin> set (current_puzzle round_start)"
    by (simp add: char_defs demo_defs)
  have a: "upper CHR ''a'' \<in> VOWELS" "upper CHR ''a'' \<notin> guessed_letters round_start"
    "VOWEL_COST \<le> score round_start"
    by (simp_all add: char_defs demo_defs VOWEL_COST_def)
  have ah: "upper CHR ''a'' \<in> set (current_puzzle round_start)"
    "length (revealed round_start) = length (current_puzzle round_start)"
    "\<not> completes round_start CHR ''a''"
    by (simp_all add: completes_def revealed_after_def char_defs demo_defs)
  have v: "current_value round_start = 500" "can_guess round_start"
    by (simp_all add: demo_defs)
  from vowel_guess_spin_state [OF o, of 0 0] om
  have 1: "\<exists>s'. guess_letter round_start CHR ''o'' True 0 0 = Inr s' \<and> current_value s' = 0 \<and> \<not> can_guess s'"
    by blast
  from vowel_guess_spin_state [OF a, of 0 0] ah
  have "\<exists>s'. guess_letter round_start CHR ''a'' True 0 0 = Inr s' \<and>
          current_value s' = current_value round_start \<and> can_guess s' = can_guess round_start"
    by blast
  with v have 2: "\<exists>s'. guess_letter round_start CHR ''a'' True 0 0 = Inr s' \<and> current_value s' = 500 \<and> can_guess s'"
    by simp
  from o om a(1,2) ah 1 2 show ?thesis
    by blast
qed

text \<open>
  C4 as stated fails: after a spin that landed on 500, the purchased vowel \<open>E\<close> misses
  \<open>CAT\<close>, and the call ends with \<open>can_guess = False\<close> and \<open>current_value = 0\<close>.
\<close>

theorem vowel_miss_resets_spin_counterexample:
  "upper CHR ''e'' \<in> VOWELS \<and> upper CHR ''e'' \<notin> guessed_letters round_start \<and>
   VOWEL_COST \<le> score round_start \<and> upper CHR ''e'' \<notin> set (current_puzzle round_start) \<and>
   can_guess round_start \<and> current_value round_start = 500 \<and>
   guess_letter round_start CHR ''e'' True 0 0 =
     Inr (round_start\<lparr>score := 0, guessed_letters := {CHR ''E''}, message := ''Sorry, no E'',
                       current_value := 0, can_guess := False\<rparr>)"
  by (simp add: char_defs demo_defs VOWEL_COST_def guess_letter_def resolve_guess_def Let_def)

text \<open>
  C5. A guess of a letter that is already in \<open>guessed_letters\<close> (after upper-casing, as
  line 451 does before the test of line 453) changes nothing but the message: score,
  revealed cells, \<open>can_guess\<close>, wheel value and guessed letters stay as they were, whatever
  \<open>can_guess\<close> and the purchase flag are.
\<close>

theorem repeated_guess_only_message:
  assumes "upper letter \<in> guessed_letters s"
  shows "\<exists>s'. guess_letter s letter is_vowel_purchase r1 r2 = Inr s' \<and>
     s' = s\<lparr>message := ''Already guessed!''\<rparr> \<and>
     score s' = score s \<and> revealed s' = revealed s \<and> can_guess s' = can_guess s \<and>
     current_value s' = current_value s \<and> guessed_letters s' = guessed_letters s"
  using assms by (simp add: guess_letter_def)

text \<open>C5 at a concrete state: \<open>T\<close> was guessed before.\<close>

theorem repeated_guess_only_message_witness:
  "upper CHR ''t'' \<in> guessed_letters last_consonant \<and>
   guess_letter last_consonant CHR ''t'' True 0 0 = Inr (last_consonant\<lparr>message := ''Already guessed!''\<rparr>)"
proof -
  have h: "upper CHR ''t'' \<in> guessed_letters last_consonant"
    by (simp add: char_defs demo_defs)
  from repeated_guess_only_message [OF h, of True 0 0] h show ?thesis by auto
qed

text \<open>
  C6. The score is never negative: not after any run of operations from the state
  \<open>__init__\<close> builds (score 0), and not after any run from a state whose score and wheel
  value are not negative. A vowel purchase with a score below the cost is rejected with
  the score unchanged, by \<open>buy_vowel\<close> and by \<open>guess_letter\<close> alike.
\<close>

theorem score_never_negative:
  "(init_game ps q1 q2 = Inr s0 \<and> run s0 xs = Inr s' \<longrightarrow> 0 \<le> score s') \<and>
   (0 \<le> score t \<and> 0 \<le> current_value t \<and> run t ys = Inr t' \<longrightarrow> 0 \<le> score t') \<and>
   (score s < VOWEL_COST \<longrightarrow>
      buy_vowel s = (False, s\<lparr>message := ''Need $250!''\<rparr>) \<and>
      (upper letter \<in> VOWELS \<and> upper letter \<notin> guessed_letters s \<longrightarrow>
         guess_letter s letter True r1 r2 = Inr (s\<lparr>message := ''Need $250!''\<rparr>)))"
proof -
  have m: "''Need $'' @ str_int VOWEL_COST @ ''!'' = ''Need $250!''"
    unfolding VOWEL_COST_def by code_simp
  have a: "0 \<le> score s'" if "init_game ps q1 q2 = Inr s0" "run s0 xs = Inr s'"
  proof -
    from that(1) have "score s0 = 0 \<and> current_value s0 = 0"
      unfolding init_game_def by (auto dest!: new_puzzle_keeps_score)
    with that(2) show ?thesis
      by (intro run_nonneg [of s0 xs s']) simp_all
  qed
  have b: "buy_vowel s = (False, s\<lparr>message := ''Need $250!''\<rparr>)" if "score s < VOWEL_COST"
    using that m by (simp add: buy_vowel_def)
  have c: "guess_letter s letter True r1 r2 = Inr (s\<lparr>message := ''Need $250!''\<rparr>)"
    if "score s < VOWEL_COST" "upper letter \<in> VOWELS" "upper letter \<notin> guessed_letters s"
    using that m by (simp add: guess_letter_def vowel_isalpha)
  have d: "0 \<le> score t'" if "0 \<le> score t" "0 \<le> current_value t" "run t ys = Inr t'"
    using that by (rule run_nonneg)
  from a b c d show ?thesis by blast
qed

text \<open>C6 at concrete runs: one from the initial state, and one that spends the score
  down to exactly 0, after which a further purchase is refused.\<close>

theorem score_never_negative_witness:
  "init_game demo_puzzles 0 0 = Inr first_round \<and>
   run first_round [Spin 20, AdvanceWheel, BuyVowel, GuessLetter CHR ''a'' True 0 0] =
     Inr (first_round\<lparr>wheel_angle := 20, wheel_spinning := True, wheel_speed := 98 / 5,
                       message := ''Need $250!''\<rparr>) \<and>
   0 \<le> score (first_round\<lparr>wheel_angle := 20, wheel_spinning := True, wheel_speed := 98 / 5,
                       message := ''Need $250!''\<rparr>) \<and>
   0 \<le> score broke \<and> 0 \<le> current_value broke \<and>
   run broke [GuessLetter CHR ''c'' False 0 0, BuyVowel, GuessLetter CHR ''a'' True 0 0,
              GuessLetter CHR ''o'' True 0 0] =
     Inr (broke\<lparr>revealed := ''CA_'', guessed_letters := {CHR ''C'', CHR ''A'', CHR ''O''},
                 current_value := 0, can_guess := False, message := ''Sorry, no O'',
                 score := 0\<rparr>) \<and>
   0 \<le> score (broke\<lparr>revealed := ''CA_'', guessed_letters := {CHR ''C'', CHR ''A'', CHR ''O''},
                 current_value := 0, can_guess := False, message := ''Sorry, no O'',
                 score := 0\<rparr>) \<and>
   score broke < VOWEL_COST \<and>
   buy_vowel broke = (False, broke\<lparr>message := ''Need $250!''\<rparr>) \<and>
   upper CHR ''a'' \<in> VOWELS \<and> upper CHR ''a'' \<notin> guessed_letters broke \<and>
   guess_letter broke CHR ''a'' True 0 0 = Inr (broke\<lparr>message := ''Need $250!''\<rparr>)"
proof -
  let ?xs = "[Spin 20, AdvanceWheel, BuyVowel, GuessLetter CHR ''a'' True 0 0]"
  let ?e = "first_round\<lparr>wheel_angle := 20, wheel_spinning := True, wheel_speed := 98 / 5,
                       message := ''Need $250!''\<rparr>"
  let ?ys = "[GuessLetter CHR ''c'' False 0 0, BuyVowel, GuessLetter CHR ''a'' True 0 0,
              GuessLetter CHR ''o'' True 0 0]"
  let ?f = "broke\<lparr>revealed := ''CA_'', guessed_letters := {CHR ''C'', CHR ''A'', CHR ''O''},
                 current_value := 0, can_guess := False, message := ''Sorry, no O'',
                 score := 0\<rparr>"
  have m1: "str_int 250 = ''250''" by code_simp
  have m2: "str_int 500 = ''500''" by code_simp
  have m3: "str_int 1 = ''1''" by code_simp
  note m = m1 m2 m3
  have i: "init_game demo_puzzles 0 0 = Inr first_round"
    by (simp add: init_game_def first_round_def new_puzzle_def choice_def hide_def char_defs demo_defs)
  have r: "run first_round ?xs = Inr ?e"
    by (simp add: first_round_def spin_wheel_def update_wheel_def buy_vowel_def guess_letter_def
        Let_def m char_defs demo_defs VOWEL_COST_def)
  have b: "0 \<le> score broke" "0 \<le> current_value broke" "score broke < VOWEL_COST"
    "upper CHR ''a'' \<in> VOWELS" "upper CHR ''a'' \<notin> guessed_letters broke"
    by (simp_all add: broke_def char_defs demo_defs VOWEL_COST_def)
  have q: "run broke ?ys = Inr ?f"
    by (simp add: broke_def buy_vowel_def guess_letter_def resolve_guess_def
        Let_def m char_defs demo_defs VOWEL_COST_def insert_commute)
  from score_never_negative [of demo_puzzles 0 0 first_round ?xs ?e broke ?ys ?f broke "CHR ''a''" 0 0]
    i r b q show ?thesis
    by simp
qed

text \<open>
  C7, as the code has it. With a category to choose and no empty category, \<open>new_puzzle\<close>
  returns a state with wheel value 0, \<open>can_guess = False\<close>, no guessed letters, and a cell
  for every character of the phrase: \<open>_\<close> at every alphabetic position, the character of
  the phrase at every other one. It does not touch the wheel's spinning flag, speed or
  angle, nor the score: a wheel that was spinning keeps spinning.
\<close>

theorem new_puzzle_resets_round:
  assumes "wf_puzzles (puzzles s)"
  shows "\<exists>s'. new_puzzle s r1 r2 = Inr s' \<and>
     current_value s' = 0 \<and> \<not> can_guess s' \<and> guessed_letters s' = {} \<and>
     length (revealed s') = length (current_puzzle s') \<and>
     (\<forall>i < length (current_puzzle s').
        revealed s' ! i = (if isalpha (current_puzzle s' ! i) then CHR ''_'' else current_puzzle s' ! i)) \<and>
     wheel_spinning s' = wheel_spinning s \<and> wheel_speed s' = wheel_speed s \<and>
     wheel_angle s' = wheel_angle s \<and> score s' = score s"
proof -
  from new_puzzle_wf [OF assms, of r1 r2] obtain category phrase where
    n: "new_puzzle s r1 r2 =
          Inr (s\<lparr>current_category := category, current_puzzle := map upper phrase,
                 revealed := hide (map upper phrase), guessed_letters := {},
                 current_value := 0, can_guess := False, message := []\<rparr>)"
    by blast
  show ?thesis
    unfolding n by (simp add: hide_def)
qed

text \<open>C7 at a concrete state: a new puzzle while the wheel spins at speed 20.\<close>

theorem new_puzzle_resets_round_witness:
  "wf_puzzles (puzzles spinning) \<and>
   (\<exists>s'. new_puzzle spinning 0 1 = Inr s' \<and>
     current_value s' = 0 \<and> \<not> can_guess s' \<and> guessed_letters s' = {} \<and>
     current_puzzle s' = ''DOG'' \<and> revealed s' = ''___'' \<and>
     wheel_spinning s' \<and> wheel_speed s' = 20 \<and> wheel_angle s' = 725 \<and> score s' = 250)"
proof -
  have h: "wf_puzzles (puzzles spinning)"
    by (simp add: wf_puzzles_def spinning_def demo_defs)
  have e: "new_puzzle spinning 0 1 =
     Inr (spinning\<lparr>current_puzzle := ''DOG'', revealed := ''___'', message := []\<rparr>)"
    by (simp add: spinning_def char_defs demo_defs new_puzzle_def choice_def hide_def)
  have v: "wheel_spinning spinning" "wheel_speed spinning = 20" "wheel_angle spinning = 725"
    "score spinning = 250"
    by (simp_all add: spinning_def demo_defs)
  from new_puzzle_resets_round [OF h, of 0 1] show ?thesis
    unfolding e using h v by simp
qed

text \<open>
  C7 as stated fails: called while the wheel is spinning, \<open>new_puzzle\<close> returns a state
  whose wheel is still spinning, at the same speed.
\<close>

theorem new_puzzle_keeps_wheel_spinning_counterexample:
  "wheel_spinning spinning \<and>
   new_puzzle spinning 0 1 =
     Inr (spinning\<lparr>current_puzzle := ''DOG'', revealed := ''___'', message := []\<rparr>) \<and>
   wheel_spinning (spinning\<lparr>current_puzzle := ''DOG'', revealed := ''___'', message := []\<rparr>) \<and>
   wheel_speed (spinning\<lparr>current_puzzle := ''DOG'', revealed := ''___'', message := []\<rparr>) = 20"
  by (simp add: spinning_def char_defs demo_defs new_puzzle_def choice_def hide_def)

text \<open>
  C8. Whenever \<open>update_wheel\<close> stops the wheel (the decayed speed is below 0.1), the
  segment it computes is \<open>floor((angle mod 360) / (360 / 12))\<close>, a valid index of the
  twelve-entry table, so the lookup does not raise, and the wheel value it stores is one of
  the twelve table values. Angle and speed are exact rationals here.
\<close>

theorem landing_value_in_table:
  assumes "wheel_spinning s" and "wheel_speed s * (98 / 100) < 1 / 10"
  shows "\<exists>segment.
     segment = \<lfloor>py_mod (wheel_angle s + wheel_speed s) 360 / (360 / 12)\<rfloor> \<and>
     0 \<le> segment \<and> segment < int (length WHEEL_VALUES) \<and> length WHEEL_VALUES = 12 \<and>
     update_wheel s =
       Inr (s\<lparr>wheel_angle := wheel_angle s + wheel_speed s,
              wheel_speed := wheel_speed s * (98 / 100),
              wheel_spinning := False,
              current_value := WHEEL_VALUES ! nat segment,
              can_guess := True,
              message := ''Landed on $'' @ str_int (WHEEL_VALUES ! nat segment) @ ''!''\<rparr>) \<and>
     WHEEL_VALUES ! nat segment \<in> {500, 550, 600, 650, 700, 750, 800, 850, 900, 300, 400, 450}"
proof -
  let ?a = "wheel_angle s + wheel_speed s"
  let ?g = "landing_segment ?a"
  have r: "0 \<le> ?g" "?g < int (length WHEEL_VALUES)"
    using landing_segment_range [of ?a] by simp_all
  then have i: "py_index WHEEL_VALUES ?g = Inr (WHEEL_VALUES ! nat ?g)"
    and m: "WHEEL_VALUES ! nat ?g \<in> set WHEEL_VALUES"
    using py_index_in_range [of ?g WHEEL_VALUES] by simp_all
  have u: "update_wheel s =
       Inr (s\<lparr>wheel_angle := ?a,
              wheel_speed := wheel_speed s * (98 / 100),
              wheel_spinning := False,
              current_value := WHEEL_VALUES ! nat ?g,
              can_guess := True,
              message := ''Landed on $'' @ str_int (WHEEL_VALUES ! nat ?g) @ ''!''\<rparr>)"
    using assms i by (simp add: update_wheel_def Let_def)
  have t: "set WHEEL_VALUES = {500, 550, 600, 650, 700, 750, 800, 850, 900, 300, 400, 450}"
    by (simp add: WHEEL_VALUES_def)
  have l: "length WHEEL_VALUES = 12"
    by (simp add: WHEEL_VALUES_def)
  from r u m l show ?thesis
    unfolding t by (intro exI [of _ ?g]) (simp add: landing_segment_floor)
qed

text \<open>C8 at a concrete state: the wheel stops at 725.1 degrees, in segment 0.\<close>

theorem landing_value_in_table_witness:
  "wheel_spinning stopping \<and> wheel_speed stopping * (98 / 100) < 1 / 10 \<and>
   update_wheel stopping =
     Inr (stopping\<lparr>wheel_angle := 7251 / 10, wheel_speed := 49 / 500, wheel_spinning := False,
                    current_value := 500, can_guess := True, message := ''Landed on $500!''\<rparr>)"
proof -
  have h: "wheel_spinning stopping" "wheel_speed stopping * (98 / 100) < 1 / 10"
    by (simp_all add: stopping_def spinning_def demo_defs)
  have a: "wheel_angle stopping + wheel_speed stopping = 7251 / 10"
    "wheel_speed stopping * (98 / 100) = 49 / 500"
    by (simp_all add: stopping_def spinning_def demo_defs)
  have f: "\<lfloor>py_mod (7251 / 10) 360 / (360 / 12)\<rfloor> = 0"
    by code_simp
  have v: "WHEEL_VALUES ! nat 0 = 500"
    by (simp add: WHEEL_VALUES_def)
  have m: "str_int 500 = ''500''"
    by code_simp
  from landing_value_in_table [OF h] show ?thesis
    unfolding a f using h v m by simp
qed

text \<open>
  C9, as the code has it. When an accepted guess reveals the last hidden cell, the call adds
  the bonus of 1000, blocks in \<open>pygame.time.wait(3000)\<close> and calls \<open>new_puzzle\<close> itself
  (lines 497-500): it returns with a newly drawn phrase, all of its letters hidden, no
  guessed letters, wheel value 0 and \<open>can_guess = False\<close>; the score keeps the bonus.
\<close>

theorem solving_guess_starts_new_puzzle:
  assumes "accepted s letter is_vowel_purchase"
    and "completes s letter"
    and "length (revealed s) = length (current_puzzle s)"
    and "wf_puzzles (puzzles s)"
  shows "\<exists>s' category phrases phrase.
     guess_letter s letter is_vowel_purchase r1 r2 = Inr s' \<and>
     (category, phrases) \<in> set (puzzles s) \<and> phrase \<in> set phrases \<and>
     current_category s' = category \<and>
     current_puzzle s' = map upper phrase \<and>
     revealed s' = hide (map upper phrase) \<and>
     guessed_letters s' = {} \<and> current_value s' = 0 \<and> \<not> can_guess s' \<and>
     waited s' = waited s + 3000 \<and>
     score s' =
       (if upper letter \<in> VOWELS then score s - 250
        else score s + current_value s * int (count_list (current_puzzle s) (upper letter))) + 1000"
proof -
  let ?l = "upper letter"
  let ?p = "if ?l \<in> VOWELS then s\<lparr>score := score s - VOWEL_COST\<rparr> else s"
  let ?t = "solved_state (hit_state ?p ?l)"
  have g: "guess_letter s letter is_vowel_purchase r1 r2 = resolve_guess ?p ?l r1 r2"
    using assms(1) by (rule guess_letter_accepted)
  have "resolve_guess ?p ?l r1 r2 = new_puzzle ?t r1 r2"
    using assms(2,3) by (simp add: resolve_guess_hit completes_def)
  with g have e: "guess_letter s letter is_vowel_purchase r1 r2 = new_puzzle ?t r1 r2"
    by simp
  have p: "puzzles ?t = puzzles s"
    by (simp add: solved_state_def hit_state_def Let_def)
  with assms(4) have "wf_puzzles (puzzles ?t)"
    by simp
  from new_puzzle_wf [OF this, of r1 r2] obtain category phrases phrase where
    m: "(category, phrases) \<in> set (puzzles ?t)" "phrase \<in> set phrases" and
    n: "new_puzzle ?t r1 r2 =
          Inr (?t\<lparr>current_category := category, current_puzzle := map upper phrase,
                  revealed := hide (map upper phrase), guessed_letters := {},
                  current_value := 0, can_guess := False, message := []\<rparr>)"
    by blast
  have w: "waited ?t = waited s + 3000"
    by (simp add: solved_state_def hit_state_def Let_def)
  have sc: "score ?t =
       (if ?l \<in> VOWELS then score s - 250
        else score s + current_value s * int (count_list (current_puzzle s) ?l)) + 1000"
    by (simp add: solved_state_def hit_state_def Let_def VOWEL_COST_def)
  from e n m p w sc show ?thesis
    by (intro exI [of _ "?t\<lparr>current_category := category, current_puzzle := map upper phrase,
                  revealed := hide (map upper phrase), guessed_letters := {},
                  current_value := 0, can_guess := False, message := []\<rparr>"]
        exI [of _ category] exI [of _ phrases] exI [of _ phrase]) simp
qed

text \<open>C9 at a concrete state: \<open>C\<close> completes \<open>_AT\<close>.\<close>

theorem solving_guess_starts_new_puzzle_witness:
  "accepted last_consonant CHR ''c'' False \<and> completes last_consonant CHR ''c'' \<and>
   length (revealed last_consonant) = length (current_puzzle last_consonant) \<and>
   wf_puzzles (puzzles last_consonant) \<and>
   (\<exists>s' category phrases phrase.
     guess_letter last_consonant CHR ''c'' False 0 1 = Inr s' \<and>
     (category, phrases) \<in> set (puzzles last_consonant) \<and> phrase \<in> set phrases \<and>
     current_category s' = category \<and>
     current_puzzle s' = map upper phrase \<and>
     revealed s' = hide (map upper phrase) \<and>
     guessed_letters s' = {} \<and> current_value s' = 0 \<and> \<not> can_guess s' \<and>
     waited s' = 3000 \<and> score s' = 1750)"
proof -
  have h: "accepted last_consonant CHR ''c'' False" "completes last_consonant CHR ''c''"
    "length (revealed last_consonant) = length (current_puzzle last_consonant)"
    "wf_puzzles (puzzles last_consonant)"
    by (simp_all add: accepted_def completes_def revealed_after_def wf_puzzles_def char_defs demo_defs)
  have v: "waited last_consonant + 3000 = 3000"
    "(if upper CHR ''c'' \<in> VOWELS then score last_consonant - 250
      else score last_consonant + current_value last_consonant *
           int (count_list (current_puzzle last_consonant) (upper CHR ''c''))) + 1000 = 1750"
    by (simp_all add: char_defs demo_defs)
  from solving_guess_starts_new_puzzle [OF h, of 0 1] show ?thesis
    unfolding v using h by blast
qed

text \<open>
  C9 as stated fails: \<open>A\<close> completes \<open>C_T\<close>, and at the end of the call the phrase is
  \<open>DOG\<close> with every cell hidden, after a wait of 3000 ms.
\<close>

theorem solving_guess_starts_new_puzzle_counterexample:
  "accepted last_vowel CHR ''a'' True \<and> completes last_vowel CHR ''a'' \<and>
   current_puzzle last_vowel = ''CAT'' \<and> waited last_vowel = 0 \<and>
   guess_letter last_vowel CHR ''a'' True 0 1 =
     Inr (last_vowel\<lparr>current_puzzle := ''DOG'', revealed := ''___'', guessed_letters := {},
                      current_value := 0, can_guess := False, message := [],
                      score := 1000, waited := 3000\<rparr>)"
  by (simp add: accepted_def completes_def revealed_after_def char_defs demo_defs VOWEL_COST_def
      guess_letter_def resolve_guess_def new_puzzle_def choice_def hide_def Let_def)




end
